theory Spec2Isabelle
  imports Main "HOL-Library.Multiset" "HOL-Library.Sublist"
begin

section \<open>Data model\<close>

text \<open>
  The two tables of the polls application. The module \<^verbatim>\<open>polls/models.py\<close> that declares
  them is not among the sources; the fields below are the ones \<^verbatim>\<open>views.py\<close> and
  \<^verbatim>\<open>tests.py\<close> read and write (\<^verbatim>\<open>id\<close>, \<^verbatim>\<open>question_text\<close>, \<^verbatim>\<open>pub_date\<close>,
  \<^verbatim>\<open>choice_set\<close>, \<^verbatim>\<open>choice_text\<close>, \<^verbatim>\<open>votes\<close>) and the ones the specification lists.
  Primary keys are integers, timestamps are integers (microseconds since the epoch, the
  resolution of a Python \<^verbatim>\<open>datetime\<close>), and the vote counter is a Python integer.
\<close>

record question =
  q_id :: int
  question_text :: string
  pub_date :: int

record choice =
  c_id :: int
  c_question :: int
  choice_text :: string
  votes :: int

text \<open>The persistent state: the rows of both tables, in table order.\<close>

record store =
  questions :: "question list"
  choices :: "choice list"

section \<open>The query operations the views call\<close>

datatype exn = KeyError | ValueError | DoesNotExist | MultipleObjectsReturned | Http404

text \<open>\<^verbatim>\<open>QuerySet.get()\<close>: exactly one row, or an exception.\<close>

fun get :: "'a list \<Rightarrow> exn + 'a" where
  "get [] = Inl DoesNotExist"
| "get [x] = Inr x"
| "get (x # y # zs) = Inl MultipleObjectsReturned"

text \<open>\<^verbatim>\<open>filter(pub_date__lte=now)\<close>\<close>

definition filter_pub_date_lte :: "int \<Rightarrow> question list \<Rightarrow> question list" where
  "filter_pub_date_lte now qs = filter (\<lambda>q. pub_date q \<le> now) qs"

text \<open>
  \<^verbatim>\<open>order_by('-pub_date')\<close>. The database leaves the order of rows with equal timestamps
  open; the model keeps them in table order (a stable sort). No theorem below depends on
  how ties are broken.
\<close>

definition order_by_pub_date_desc :: "question list \<Rightarrow> question list" where
  "order_by_pub_date_desc qs = sort_key (\<lambda>q. - pub_date q) qs"

text \<open>\<^verbatim>\<open>filter(pk=...)\<close> on either table.\<close>

definition filter_q_pk :: "int \<Rightarrow> question list \<Rightarrow> question list" where
  "filter_q_pk pk qs = filter (\<lambda>q. q_id q = pk) qs"

definition filter_c_pk :: "int \<Rightarrow> choice list \<Rightarrow> choice list" where
  "filter_c_pk pk cs = filter (\<lambda>c. c_id c = pk) cs"

text \<open>\<^verbatim>\<open>p.choice_set\<close>: the choices whose foreign key is the question.\<close>

definition choice_set :: "store \<Rightarrow> question \<Rightarrow> choice list" where
  "choice_set st p = filter (\<lambda>c. c_question c = q_id p) (choices st)"

text \<open>
  \<^verbatim>\<open>Model.save()\<close> of a choice: the row with the same primary key is overwritten; a key
  that no row has is inserted.
\<close>

definition save :: "store \<Rightarrow> choice \<Rightarrow> store" where
  "save st c =
     (if c_id c \<in> set (map c_id (choices st))
      then st\<lparr>choices := map (\<lambda>r. if c_id r = c_id c then c else r) (choices st)\<rparr>
      else st\<lparr>choices := choices st @ [c]\<rparr>)"

text \<open>
  \<^verbatim>\<open>get_object_or_404(Question, pk=question_id)\<close> and the \<^verbatim>\<open>get_object\<close> of a generic
  detail view: both turn \<^verbatim>\<open>DoesNotExist\<close> into \<^verbatim>\<open>Http404\<close> and let any other exception
  through.
\<close>

definition get_object :: "question list \<Rightarrow> int \<Rightarrow> exn + question" where
  "get_object queryset pk =
     (case get (filter_q_pk pk queryset) of
        Inl e \<Rightarrow> if e = DoesNotExist then Inl Http404 else Inl e
      | Inr obj \<Rightarrow> Inr obj)"

definition get_object_or_404 :: "question list \<Rightarrow> int \<Rightarrow> exn + question" where
  "get_object_or_404 objects pk =
     (case get (filter_q_pk pk objects) of
        Inl e \<Rightarrow> if e = DoesNotExist then Inl Http404 else Inl e
      | Inr obj \<Rightarrow> Inr obj)"

section \<open>Responses\<close>

text \<open>
  A rendered template is kept as the template name with the context handed to it; a
  redirect as the name and arguments given to \<^verbatim>\<open>reverse\<close>. An \<^verbatim>\<open>Http404\<close> that leaves a
  view becomes the 404 response, any other exception the 500 response.
\<close>

datatype "context" =
    Latest_question_list "question list"
  | Question_context question "string option"

datatype response =
    HttpResponse string "context"
  | HttpResponseRedirect string "int list"
  | HttpResponseNotFound
  | HttpResponseServerError exn

fun status_code :: "response \<Rightarrow> nat" where
  "status_code (HttpResponse t c) = 200"
| "status_code (HttpResponseRedirect n args) = 302"
| "status_code HttpResponseNotFound = 404"
| "status_code (HttpResponseServerError e) = 500"

definition handle_exn :: "exn \<Rightarrow> response" where
  "handle_exn e = (if e = Http404 then HttpResponseNotFound else HttpResponseServerError e)"

section \<open>The views of \<^verbatim>\<open>polls/views.py\<close>\<close>

text \<open>
  Every view takes the store and returns the store it leaves behind with its response.
  \<^verbatim>\<open>timezone.now()\<close> is the argument \<open>now\<close>.
\<close>

definition IndexView_get_queryset :: "store \<Rightarrow> int \<Rightarrow> question list" where
  "IndexView_get_queryset st now =
     (let questions' = take 5 (order_by_pub_date_desc (filter_pub_date_lte now (questions st)))
      in filter (\<lambda>question. choice_set st question \<noteq> []) questions')"

definition IndexView :: "store \<Rightarrow> int \<Rightarrow> store \<times> response" where
  "IndexView st now =
     (st, HttpResponse ''polls/index.html'' (Latest_question_list (IndexView_get_queryset st now)))"

definition DetailView_get_queryset :: "store \<Rightarrow> int \<Rightarrow> question list" where
  "DetailView_get_queryset st now = filter_pub_date_lte now (questions st)"

definition DetailView :: "store \<Rightarrow> int \<Rightarrow> int \<Rightarrow> store \<times> response" where
  "DetailView st now pk =
     (case get_object (DetailView_get_queryset st now) pk of
        Inl e \<Rightarrow> (st, handle_exn e)
      | Inr obj \<Rightarrow> (st, HttpResponse ''polls/detail.html'' (Question_context obj None)))"

definition ResultsView_get_queryset :: "store \<Rightarrow> int \<Rightarrow> question list" where
  "ResultsView_get_queryset st now = filter_pub_date_lte now (questions st)"

definition ResultsView :: "store \<Rightarrow> int \<Rightarrow> int \<Rightarrow> store \<times> response" where
  "ResultsView st now pk =
     (case get_object (ResultsView_get_queryset st now) pk of
        Inl e \<Rightarrow> (st, handle_exn e)
      | Inr obj \<Rightarrow> (st, HttpResponse ''polls/results.html'' (Question_context obj None)))"

text \<open>
  \<^verbatim>\<open>vote(request, question_id)\<close>. The argument \<open>POST\<close> is \<^verbatim>\<open>request.POST\<close>, a dictionary
  from field names to the submitted text. \<^verbatim>\<open>p.choice_set.get(pk=...)\<close> is handed that text
  and first turns it into a key of the choice table. The key field is declared in
  \<^verbatim>\<open>polls/models.py\<close>, which is not among the sources, so its coercion is the parameter
  \<open>to_key\<close>: \<open>None\<close> is the \<^verbatim>\<open>ValueError\<close> it raises for text that is no key. The
  \<^verbatim>\<open>except\<close> clause names \<^verbatim>\<open>KeyError\<close> and \<^verbatim>\<open>Choice.DoesNotExist\<close> only; any other
  exception leaves the view.
\<close>

definition error_message :: string where
  "error_message = ''You didn't select a choice.''"

definition vote ::
  "(string \<Rightarrow> int option) \<Rightarrow> store \<Rightarrow> (string \<rightharpoonup> string) \<Rightarrow> int \<Rightarrow> store \<times> response" where
  "vote to_key st POST question_id =
     (case get_object_or_404 (questions st) question_id of
        Inl e \<Rightarrow> (st, handle_exn e)
      | Inr p \<Rightarrow>
          (case (case POST ''choice'' of
                   None \<Rightarrow> Inl KeyError
                 | Some text \<Rightarrow>
                     (case to_key text of
                        None \<Rightarrow> Inl ValueError
                      | Some pk \<Rightarrow> get (filter_c_pk pk (choice_set st p)))) of
             Inl e \<Rightarrow>
               if e = KeyError \<or> e = DoesNotExist
               then (st, HttpResponse ''polls/detail.html''
                           (Question_context p (Some error_message)))
               else (st, handle_exn e)
           | Inr selected_choice \<Rightarrow>
               (save st (selected_choice\<lparr>votes := votes selected_choice + 1\<rparr>),
                HttpResponseRedirect ''polls:results'' [q_id p])))"

section \<open>Published recently\<close>

text \<open>
  Modelled from the spec: \<^verbatim>\<open>Question.was_published_recently\<close> is a method of the model class
  in \<^verbatim>\<open>polls/models.py\<close>, which is not among the sources; only its tests are. The
  specification's words are: the publication timestamp falls within the last 24 hours and
  is not in the future.
\<close>

definition one_day :: int where
  "one_day = 24 * 60 * 60 * 1000000"

definition one_hour :: int where
  "one_hour = 60 * 60 * 1000000"

definition was_published_recently :: "question \<Rightarrow> int \<Rightarrow> bool" where
  "was_published_recently q now = (now - one_day \<le> pub_date q \<and> pub_date q \<le> now)"

section \<open>The workflow as a whole\<close>

text \<open>
  Modelled from the spec: the routing module \<^verbatim>\<open>polls/urls.py\<close> is not among the sources.
  The specification names four entry points (list, detail, results, vote); a request is one
  of them with its parameters, and \<open>dispatch\<close> hands it to the view.
\<close>

datatype request =
    GET_index
  | GET_detail int
  | GET_results int
  | POST_vote int "string \<rightharpoonup> string"

fun dispatch ::
  "(string \<Rightarrow> int option) \<Rightarrow> store \<Rightarrow> int \<Rightarrow> request \<Rightarrow> store \<times> response" where
  "dispatch to_key st now GET_index = IndexView st now"
| "dispatch to_key st now (GET_detail pk) = DetailView st now pk"
| "dispatch to_key st now (GET_results pk) = ResultsView st now pk"
| "dispatch to_key st now (POST_vote question_id POST) = vote to_key st POST question_id"

text \<open>A sequence of requests, each served at its own time, one after the other.\<close>

fun run :: "(string \<Rightarrow> int option) \<Rightarrow> store \<Rightarrow> (int \<times> request) list \<Rightarrow> store" where
  "run to_key st [] = st"
| "run to_key st ((now, r) # rs) = run to_key (fst (dispatch to_key st now r)) rs"

text \<open>
  \<^verbatim>\<open>q.choice_set.create(choice_text=...)\<close>, as \<^verbatim>\<open>tests.py\<close> calls it: a new row of the
  choice table for the question. Modelled from the spec: the starting value of the vote
  counter is a default declared in \<^verbatim>\<open>polls/models.py\<close>, which is not among the sources;
  the specification says the counter starts at 0. The key is the next one after the largest
  in the table.
\<close>

definition choice_set_create :: "store \<Rightarrow> question \<Rightarrow> string \<Rightarrow> store \<times> choice" where
  "choice_set_create st q text =
     (let c = \<lparr>c_id = fold max (map c_id (choices st)) 0 + 1, c_question = q_id q,
                choice_text = text, votes = 0\<rparr>
      in (st\<lparr>choices := choices st @ [c]\<rparr>, c))"

section \<open>The specification's words\<close>

text \<open>
  "The five most-recently-published questions whose publication timestamp is at most the
  current time, ordered descending by publication timestamp": a list \<open>xs\<close> of published
  rows of the table, in descending order, five of them (all of them when fewer are
  published), such that no published row left out is newer than a row of \<open>xs\<close>.
\<close>

definition five_most_recently_published :: "store \<Rightarrow> int \<Rightarrow> question list \<Rightarrow> bool" where
  "five_most_recently_published st now xs =
     (let published = filter (\<lambda>q. pub_date q \<le> now) (questions st)
      in sorted_wrt (\<lambda>a b. pub_date b \<le> pub_date a) xs
         \<and> mset xs \<subseteq># mset published
         \<and> length xs = min 5 (length published)
         \<and> (\<forall>q \<in># mset published - mset xs. \<forall>x \<in> set xs. pub_date q \<le> pub_date x))"

text \<open>
  The listing contract as the specification words it: the five most recent among the
  published questions that have a choice.
\<close>

definition listing_contract :: "store \<Rightarrow> int \<Rightarrow> question list" where
  "listing_contract st now =
     take 5 (order_by_pub_date_desc
       (filter (\<lambda>q. pub_date q \<le> now \<and> choice_set st q \<noteq> []) (questions st)))"

text \<open>The store without its unpublished questions.\<close>

definition published_only :: "store \<Rightarrow> int \<Rightarrow> store" where
  "published_only st now = st\<lparr>questions := filter (\<lambda>q. pub_date q \<le> now) (questions st)\<rparr>"

text \<open>The same row of the choice table, with at least as many votes.\<close>

definition same_rows_more_votes :: "choice \<Rightarrow> choice \<Rightarrow> bool" where
  "same_rows_more_votes c c' =
     (c_id c' = c_id c \<and> c_question c' = c_question c \<and> choice_text c' = choice_text c
      \<and> votes c \<le> votes c')"

section \<open>Example stores\<close>

text \<open>
  Six questions published on six consecutive days; the first five have one choice each,
  the newest has none.
\<close>

definition past_question :: "int \<Rightarrow> question" where
  "past_question i = \<lparr>q_id = i, question_text = ''Past question'', pub_date = i * one_day\<rparr>"

definition sure :: "int \<Rightarrow> int \<Rightarrow> choice" where
  "sure k i = \<lparr>c_id = k, c_question = i, choice_text = ''Sure.'', votes = 0\<rparr>"

definition six_questions :: store where
  "six_questions =
     \<lparr>questions = map past_question [1, 2, 3, 4, 5, 6],
      choices = [sure 1 1, sure 2 2, sure 3 3, sure 4 4, sure 5 5]\<rparr>"

text \<open>
  A question published on day 5 with two choices and a question to be published on day 40
  with one choice.
\<close>

definition past_q :: question where
  "past_q = \<lparr>q_id = 1, question_text = ''Past question'', pub_date = 5 * one_day\<rparr>"

definition future_q :: question where
  "future_q = \<lparr>q_id = 2, question_text = ''Future question'', pub_date = 40 * one_day\<rparr>"

definition example_store :: store where
  "example_store =
     \<lparr>questions =
        [\<lparr>q_id = 1, question_text = ''Past question'', pub_date = 5 * one_day\<rparr>,
         \<lparr>q_id = 2, question_text = ''Future question'', pub_date = 40 * one_day\<rparr>],
      choices =
        [\<lparr>c_id = 1, c_question = 1, choice_text = ''Sure.'', votes = 0\<rparr>,
         \<lparr>c_id = 2, c_question = 1, choice_text = ''No.'', votes = 3\<rparr>,
         \<lparr>c_id = 3, c_question = 2, choice_text = ''Sure.'', votes = 0\<rparr>]\<rparr>"

text \<open>
  The coercion used in the examples, that of an integer key: Python's \<^verbatim>\<open>int\<close> on ASCII
  text, which reads decimal digits with an optional sign, blanks around them ignored, and
  raises \<^verbatim>\<open>ValueError\<close> (here \<open>None\<close>) on anything else.
\<close>

definition digit_value :: "char \<Rightarrow> nat option" where
  "digit_value c =
     map_of [(CHR ''0'', 0), (CHR ''1'', 1), (CHR ''2'', 2), (CHR ''3'', 3), (CHR ''4'', 4),
             (CHR ''5'', 5), (CHR ''6'', 6), (CHR ''7'', 7), (CHR ''8'', 8), (CHR ''9'', 9)] c"

fun digits_value :: "nat \<Rightarrow> string \<Rightarrow> nat option" where
  "digits_value acc [] = Some acc"
| "digits_value acc (c # cs) =
     (case digit_value c of None \<Rightarrow> None | Some d \<Rightarrow> digits_value (10 * acc + d) cs)"

definition blank :: "char \<Rightarrow> bool" where
  "blank c = (c \<in> set [CHR '' '', CHR 0x09, CHR 0x0A, CHR 0x0B, CHR 0x0C, CHR 0x0D])"

definition strip :: "string \<Rightarrow> string" where
  "strip s = rev (dropWhile blank (rev (dropWhile blank s)))"

definition py_int :: "string \<Rightarrow> int option" where
  "py_int text =
     (case strip text of
        [] \<Rightarrow> None
      | c # cs \<Rightarrow>
          if c = CHR ''-'' then
            (if cs = [] then None else map_option (\<lambda>n. - int n) (digits_value 0 cs))
          else if c = CHR ''+'' then
            (if cs = [] then None else map_option int (digits_value 0 cs))
          else map_option int (digits_value 0 (c # cs)))"

definition example_requests :: "(int \<times> request) list" where
  "example_requests =
     [(10 * one_day, GET_index),
      (10 * one_day, POST_vote 1 [''choice'' \<mapsto> ''2'']),
      (11 * one_day, GET_detail 1),
      (11 * one_day, POST_vote 1 Map.empty),
      (11 * one_day, POST_vote 1 [''choice'' \<mapsto> ''abc'']),
      (12 * one_day, POST_vote 2 [''choice'' \<mapsto> ''3'']),
      (12 * one_day, GET_results 1)]"

section \<open>Lists, keys and queries\<close>

lemma sorted_wrt_desc_order_by:
  "sorted_wrt (\<lambda>a b. pub_date b \<le> pub_date a) (order_by_pub_date_desc qs)"
proof -
  have "sorted (map (\<lambda>q. - pub_date q) (order_by_pub_date_desc qs))"
    by (simp add: order_by_pub_date_desc_def)
  then show ?thesis
    by (simp add: sorted_map) 
qed

lemma sorted_wrt_take: "sorted_wrt P xs \<Longrightarrow> sorted_wrt P (take n xs)"
  by (metis append_take_drop_id sorted_wrt_append)

lemma sorted_wrt_filter': "sorted_wrt P xs \<Longrightarrow> sorted_wrt P (filter Q xs)"
  by (induction xs) auto

lemma take_drop_dominates:
  assumes "sorted_wrt P xs" "x \<in> set (take n xs)" "y \<in> set (drop n xs)"
  shows "P x y"
proof -
  have "sorted_wrt P (take n xs @ drop n xs)" using assms(1) by simp
  then show ?thesis using assms(2,3) unfolding sorted_wrt_append by blast
qed

lemma mset_minus_take: "mset xs - mset (take n xs) = mset (drop n xs)"
proof -
  have "mset xs = mset (take n xs) + mset (drop n xs)"
    by (metis append_take_drop_id mset_append)
  then show ?thesis by simp
qed

lemma mset_take_subset: "mset (take n xs) \<subseteq># mset xs"
proof -
  have "mset xs = mset (take n xs) + mset (drop n xs)"
    by (metis append_take_drop_id mset_append)
  then show ?thesis by (metis mset_subset_eq_add_left)
qed

lemma filter_unique_key:
  "distinct (map f xs) \<Longrightarrow> x \<in> set xs \<Longrightarrow> Q x \<Longrightarrow> filter (\<lambda>y. Q y \<and> f y = f x) xs = [x]"
proof (induction xs)
  case Nil
  then show ?case by simp
next
  case (Cons a xs)
  show ?case
  proof (cases "a = x")
    case True
    have "f x \<notin> f ` set xs" using Cons.prems(1) True by simp
    then have "\<forall>y \<in> set xs. f y \<noteq> f x" by (metis imageI)
    then have "filter (\<lambda>y. Q y \<and> f y = f x) xs = []" by (simp add: filter_empty_conv)
    with True Cons.prems(3) show ?thesis by simp
  next
    case False
    then have x: "x \<in> set xs" using Cons.prems(2) by simp
    have "f a \<notin> f ` set xs" using Cons.prems(1) by simp
    then have "f a \<noteq> f x" using x by (metis imageI)
    moreover have "filter (\<lambda>y. Q y \<and> f y = f x) xs = [x]"
      using Cons.IH Cons.prems(1,3) x by simp
    ultimately show ?thesis by simp
  qed
qed

lemma map_update_unique_key:
  assumes "distinct (map f xs)" "i < length xs"
  shows "map (\<lambda>r. if f r = f (xs ! i) then y else r) xs = xs[i := y]"
proof (rule nth_equalityI)
  show "length (map (\<lambda>r. if f r = f (xs ! i) then y else r) xs) = length (xs[i := y])" by simp
next
  fix j assume "j < length (map (\<lambda>r. if f r = f (xs ! i) then y else r) xs)"
  then have j: "j < length xs" by simp
  have "f (xs ! j) = f (xs ! i) \<longleftrightarrow> j = i"
    using assms j nth_eq_iff_index_eq[of "map f xs" j i] by simp
  then show "map (\<lambda>r. if f r = f (xs ! i) then y else r) xs ! j = xs[i := y] ! j"
    using j assms(2) by (simp add: nth_list_update)
qed

lemma get_cases:
  "get xs = Inl e \<Longrightarrow> (e = DoesNotExist \<and> xs = []) \<or> (e = MultipleObjectsReturned \<and> 2 \<le> length xs)"
  by (cases xs rule: get.cases) auto

lemma get_Inr: "get xs = Inr x \<Longrightarrow> xs = [x]"
  by (cases xs rule: get.cases) auto

lemma get_DoesNotExist_iff: "get xs = Inl DoesNotExist \<longleftrightarrow> xs = []"
  by (cases xs rule: get.cases) auto

section \<open>Resolving a question\<close>

lemma get_object_or_404_Inr:
  "get_object_or_404 qs pk = Inr p \<Longrightarrow> p \<in> set qs \<and> q_id p = pk"
proof -
  assume "get_object_or_404 qs pk = Inr p"
  then have "get (filter_q_pk pk qs) = Inr p"
    by (auto simp: get_object_or_404_def split: sum.splits if_splits)
  then have "filter_q_pk pk qs = [p]" by (rule get_Inr)
  then have "p \<in> set (filter (\<lambda>q. q_id q = pk) qs)" by (simp add: filter_q_pk_def)
  then show ?thesis by simp
qed

lemma get_object_or_404_Inl:
  "get_object_or_404 qs pk = Inl e \<Longrightarrow>
     (e = Http404 \<and> pk \<notin> set (map q_id qs)) \<or> (e = MultipleObjectsReturned \<and> pk \<in> set (map q_id qs))"
proof -
  assume a: "get_object_or_404 qs pk = Inl e"
  then obtain e' where e': "get (filter_q_pk pk qs) = Inl e'"
    by (auto simp: get_object_or_404_def split: sum.splits)
  from get_cases[OF e'] show ?thesis
  proof
    assume h: "e' = DoesNotExist \<and> filter_q_pk pk qs = []"
    then have "e = Http404" using a e' by (simp add: get_object_or_404_def)
    moreover have "pk \<notin> set (map q_id qs)"
      using h by (auto simp: filter_q_pk_def filter_empty_conv)
    ultimately show ?thesis by simp
  next
    assume h: "e' = MultipleObjectsReturned \<and> 2 \<le> length (filter_q_pk pk qs)"
    then have "e = MultipleObjectsReturned" using a e' by (simp add: get_object_or_404_def)
    moreover have "filter (\<lambda>q. q_id q = pk) qs \<noteq> []" using h by (auto simp: filter_q_pk_def)
    then have "pk \<in> set (map q_id qs)" by (auto simp: filter_empty_conv)
    ultimately show ?thesis by simp
  qed
qed

lemma get_object_or_404_unique:
  assumes "distinct (map q_id qs)" "p \<in> set qs"
  shows "get_object_or_404 qs (q_id p) = Inr p"
proof -
  have "filter (\<lambda>y. True \<and> q_id y = q_id p) qs = [p]"
    using assms by (intro filter_unique_key) simp_all
  then show ?thesis by (simp add: get_object_or_404_def filter_q_pk_def)
qed

lemma get_object_eq: "get_object qs pk = get_object_or_404 qs pk"
  by (simp add: get_object_def get_object_or_404_def)

lemma lookup_404:
  assumes "\<forall>q \<in> set (questions st). q_id q = pk \<longrightarrow> now < pub_date q"
  shows "get_object (filter_pub_date_lte now (questions st)) pk = Inl Http404"
proof -
  have "filter_q_pk pk (filter_pub_date_lte now (questions st)) = []"
    using assms by (auto simp: filter_q_pk_def filter_pub_date_lte_def filter_empty_conv)
  then show ?thesis by (simp add: get_object_def)
qed

lemma lookup_published:
  assumes "distinct (map q_id (questions st))" "q \<in> set (questions st)" "pub_date q \<le> now"
  shows "get_object (filter_pub_date_lte now (questions st)) (q_id q) = Inr q"
proof -
  have "filter (\<lambda>y. pub_date y \<le> now \<and> q_id y = q_id q) (questions st) = [q]"
    using assms by (intro filter_unique_key) simp_all
  then show ?thesis by (simp add: get_object_def filter_q_pk_def filter_pub_date_lte_def)
qed

lemma filter_pub_date_lte_idem:
  "filter_pub_date_lte now (filter (\<lambda>q. pub_date q \<le> now) qs) = filter_pub_date_lte now qs"
  by (simp add: filter_pub_date_lte_def)

lemma DetailView_found:
  assumes "DetailView st now pk = (st', HttpResponse t (Question_context q m))"
  shows "q \<in> set (questions st) \<and> q_id q = pk \<and> pub_date q \<le> now"
proof -
  have "get_object_or_404 (filter_pub_date_lte now (questions st)) pk = Inr q"
    using assms
    by (auto simp: DetailView_def DetailView_get_queryset_def get_object_eq handle_exn_def
             split: sum.splits if_splits)
  from get_object_or_404_Inr[OF this] show ?thesis by (simp add: filter_pub_date_lte_def)
qed

lemma ResultsView_found:
  assumes "ResultsView st now pk = (st', HttpResponse t (Question_context q m))"
  shows "q \<in> set (questions st) \<and> q_id q = pk \<and> pub_date q \<le> now"
proof -
  have "get_object_or_404 (filter_pub_date_lte now (questions st)) pk = Inr q"
    using assms
    by (auto simp: ResultsView_def ResultsView_get_queryset_def get_object_eq handle_exn_def
             split: sum.splits if_splits)
  from get_object_or_404_Inr[OF this] show ?thesis by (simp add: filter_pub_date_lte_def)
qed

section \<open>The listing\<close>

lemma latest_five:
  "five_most_recently_published st now
     (take 5 (order_by_pub_date_desc (filter_pub_date_lte now (questions st))))"
proof -
  let ?pub = "filter (\<lambda>q. pub_date q \<le> now) (questions st)"
  let ?s = "order_by_pub_date_desc ?pub"
  have ms: "mset ?s = mset ?pub" by (simp add: order_by_pub_date_desc_def)
  have len: "length ?s = length ?pub" by (simp add: order_by_pub_date_desc_def)
  have srt: "sorted_wrt (\<lambda>a b. pub_date b \<le> pub_date a) ?s" by (rule sorted_wrt_desc_order_by)
  have a: "sorted_wrt (\<lambda>a b. pub_date b \<le> pub_date a) (take 5 ?s)"
    using srt by (rule sorted_wrt_take)
  have b: "mset (take 5 ?s) \<subseteq># mset ?pub" using mset_take_subset[of 5 ?s] ms by simp
  have c: "length (take 5 ?s) = min 5 (length ?pub)" using len by simp
  have d: "\<forall>q \<in># mset ?pub - mset (take 5 ?s). \<forall>x \<in> set (take 5 ?s). pub_date q \<le> pub_date x"
  proof (intro ballI)
    fix q x assume "q \<in># mset ?pub - mset (take 5 ?s)" and x: "x \<in> set (take 5 ?s)"
    then have "q \<in> set (drop 5 ?s)" using mset_minus_take[of ?s 5] ms by simp
    with x srt show "pub_date q \<le> pub_date x"
      using take_drop_dominates[of "\<lambda>a b. pub_date b \<le> pub_date a" ?s x 5 q] by blast
  qed
  show ?thesis
    unfolding five_most_recently_published_def filter_pub_date_lte_def Let_def
    using a b c d by blast
qed

lemma IndexView_get_queryset_eq:
  "IndexView_get_queryset st now =
     filter (\<lambda>q. choice_set st q \<noteq> [])
       (take 5 (order_by_pub_date_desc (filter_pub_date_lte now (questions st))))"
  by (simp add: IndexView_get_queryset_def)

lemma IndexView_get_queryset_sorted:
  "sorted_wrt (\<lambda>a b. pub_date b \<le> pub_date a) (IndexView_get_queryset st now)"
  unfolding IndexView_get_queryset_eq
  by (intro sorted_wrt_filter' sorted_wrt_take sorted_wrt_desc_order_by)

lemma IndexView_get_queryset_members:
  assumes "q \<in> set (IndexView_get_queryset st now)"
  shows "q \<in> set (questions st) \<and> pub_date q \<le> now \<and> choice_set st q \<noteq> []"
proof -
  from assms have c: "choice_set st q \<noteq> []"
    and t: "q \<in> set (take 5 (order_by_pub_date_desc (filter_pub_date_lte now (questions st))))"
    unfolding IndexView_get_queryset_eq by simp_all
  from t have "q \<in> set (order_by_pub_date_desc (filter_pub_date_lte now (questions st)))"
    by (rule in_set_takeD)
  then have "q \<in> set (filter (\<lambda>q. pub_date q \<le> now) (questions st))"
    by (simp add: order_by_pub_date_desc_def filter_pub_date_lte_def)
  with c show ?thesis by simp
qed

lemma IndexView_get_queryset_length: "length (IndexView_get_queryset st now) \<le> 5"
proof -
  have "length (IndexView_get_queryset st now)
          \<le> length (take 5 (order_by_pub_date_desc (filter_pub_date_lte now (questions st))))"
    unfolding IndexView_get_queryset_eq by (rule length_filter_le)
  then show ?thesis by simp
qed

section \<open>The outcomes of a vote\<close>

lemma vote_not_selected:
  assumes "get_object_or_404 (questions st) question_id = Inr p"
    and "POST ''choice'' = None
         \<or> (\<exists>raw pk. POST ''choice'' = Some raw \<and> to_key raw = Some pk
               \<and> pk \<notin> set (map c_id (choice_set st p)))"
  shows "vote to_key st POST question_id =
           (st, HttpResponse ''polls/detail.html'' (Question_context p (Some error_message)))"
  using assms(2)
proof
  assume "POST ''choice'' = None"
  with assms(1) show ?thesis by (simp add: vote_def)
next
  assume "\<exists>raw pk. POST ''choice'' = Some raw \<and> to_key raw = Some pk
               \<and> pk \<notin> set (map c_id (choice_set st p))"
  then obtain raw pk where t: "POST ''choice'' = Some raw" "to_key raw = Some pk"
    and n: "pk \<notin> set (map c_id (choice_set st p))"
    by (elim exE conjE)
  from n have "filter_c_pk pk (choice_set st p) = []"
    by (auto simp: filter_c_pk_def filter_empty_conv)
  with t assms(1) show ?thesis by (simp add: vote_def)
qed

lemma vote_not_a_key:
  assumes "get_object_or_404 (questions st) question_id = Inr p"
    and "POST ''choice'' = Some raw" "to_key raw = None"
  shows "vote to_key st POST question_id = (st, HttpResponseServerError ValueError)"
  using assms by (simp add: vote_def handle_exn_def)

lemma choice_set_get:
  assumes "distinct (map c_id (choices st))" "c \<in> set (choices st)" "c_question c = q_id p"
  shows "get (filter_c_pk (c_id c) (choice_set st p)) = Inr c"
proof -
  have "filter (\<lambda>y. c_question y = q_id p \<and> c_id y = c_id c) (choices st) = [c]"
    using assms by (intro filter_unique_key) simp_all
  then show ?thesis by (simp add: filter_c_pk_def choice_set_def)
qed

lemma save_incremented:
  assumes "distinct (map c_id (choices st))" "i < length (choices st)"
  shows "save st ((choices st ! i)\<lparr>votes := votes (choices st ! i) + 1\<rparr>) =
           st\<lparr>choices := (choices st)[i := (choices st ! i)\<lparr>votes := votes (choices st ! i) + 1\<rparr>]\<rparr>"
proof -
  let ?c = "choices st ! i"
  let ?c' = "?c\<lparr>votes := votes ?c + 1\<rparr>"
  have "c_id ?c \<in> set (map c_id (choices st))" using assms(2) by simp
  moreover have "map (\<lambda>r. if c_id r = c_id ?c then ?c' else r) (choices st) = (choices st)[i := ?c']"
    using assms by (rule map_update_unique_key)
  ultimately show ?thesis by (simp add: save_def)
qed

lemma vote_selected:
  assumes "get_object_or_404 (questions st) question_id = Inr p"
    and "distinct (map c_id (choices st))" "i < length (choices st)"
    and "c_question (choices st ! i) = q_id p"
    and "POST ''choice'' = Some raw" "to_key raw = Some (c_id (choices st ! i))"
  shows "vote to_key st POST question_id =
           (st\<lparr>choices := (choices st)[i := (choices st ! i)\<lparr>votes := votes (choices st ! i) + 1\<rparr>]\<rparr>,
            HttpResponseRedirect ''polls:results'' [q_id p])"
proof -
  have "get (filter_c_pk (c_id (choices st ! i)) (choice_set st p)) = Inr (choices st ! i)"
    using assms(2,3,4) by (intro choice_set_get) simp_all
  then show ?thesis
    using assms(1,5,6) save_incremented[OF assms(2,3)] by (simp add: vote_def)
qed

lemma vote_store:
  assumes "distinct (map c_id (choices st))"
  shows "fst (vote to_key st POST question_id) = st
       \<or> (\<exists>i. i < length (choices st)
              \<and> fst (vote to_key st POST question_id) =
                  st\<lparr>choices := (choices st)[i := (choices st ! i)\<lparr>votes := votes (choices st ! i) + 1\<rparr>]\<rparr>)"
proof (cases "get_object_or_404 (questions st) question_id")
  case (Inl e)
  then show ?thesis by (simp add: vote_def)
next
  case p: (Inr p)
  show ?thesis
  proof (cases "POST ''choice''")
    case None
    with p show ?thesis by (simp add: vote_def)
  next
    case raw: (Some raw)
    show ?thesis
    proof (cases "to_key raw")
      case None
      with raw p show ?thesis by (simp add: vote_def)
    next
      case (Some pk)
      show ?thesis
      proof (cases "get (filter_c_pk pk (choice_set st p))")
        case (Inl e)
        with Some raw p show ?thesis by (simp add: vote_def)
      next
        case (Inr c)
        then have "filter_c_pk pk (choice_set st p) = [c]" by (rule get_Inr)
        then have "c \<in> set (filter (\<lambda>c. c_id c = pk) (filter (\<lambda>c. c_question c = q_id p) (choices st)))"
          by (simp add: filter_c_pk_def choice_set_def)
        then have c: "c \<in> set (choices st)" "c_id c = pk" "c_question c = q_id p" by simp_all
        from c(1) obtain i where i: "i < length (choices st)" "choices st ! i = c"
          unfolding in_set_conv_nth by (elim exE conjE)
        have k: "to_key raw = Some (c_id (choices st ! i))" using Some i c by simp
        have q: "c_question (choices st ! i) = q_id p" using i c by simp
        from p assms i(1) q raw k have "vote to_key st POST question_id =
             (st\<lparr>choices := (choices st)[i := (choices st ! i)\<lparr>votes := votes (choices st ! i) + 1\<rparr>]\<rparr>,
              HttpResponseRedirect ''polls:results'' [q_id p])"
          by (rule vote_selected)
        then have "fst (vote to_key st POST question_id) =
             st\<lparr>choices := (choices st)[i := (choices st ! i)\<lparr>votes := votes (choices st ! i) + 1\<rparr>]\<rparr>"
          by simp
        with i(1) show ?thesis by (intro disjI2 exI[of _ i] conjI)
      qed
    qed
  qed
qed

lemma vote_not_found_iff:
  "snd (vote to_key st POST question_id) = HttpResponseNotFound
     \<longleftrightarrow> question_id \<notin> set (map q_id (questions st))"
proof (cases "get_object_or_404 (questions st) question_id")
  case (Inl e)
  from get_object_or_404_Inl[OF Inl] Inl show ?thesis
    by (auto simp: vote_def handle_exn_def)
next
  case p: (Inr p)
  from get_object_or_404_Inr[OF p] have present: "question_id \<in> set (map q_id (questions st))"
    by auto
  have "snd (vote to_key st POST question_id) \<noteq> HttpResponseNotFound"
  proof (cases "POST ''choice''")
    case None
    with p show ?thesis by (simp add: vote_def)
  next
    case raw: (Some raw)
    show ?thesis
    proof (cases "to_key raw")
      case None
      with raw p show ?thesis by (simp add: vote_def handle_exn_def)
    next
      case (Some pk)
      show ?thesis
      proof (cases "get (filter_c_pk pk (choice_set st p))")
        case (Inl e)
        from get_cases[OF Inl] Inl Some raw p show ?thesis
          by (auto simp: vote_def handle_exn_def)
      next
        case (Inr c)
        with Some raw p show ?thesis by (simp add: vote_def)
      qed
    qed
  qed
  with present show ?thesis by simp
qed

section \<open>One request and many\<close>

lemma dispatch_outcomes:
  assumes "distinct (map c_id (choices st))"
  shows "fst (dispatch to_key st now r) = st
       \<or> (\<exists>question_id POST i. r = POST_vote question_id POST \<and> i < length (choices st)
            \<and> fst (dispatch to_key st now r) =
                st\<lparr>choices := (choices st)[i := (choices st ! i)\<lparr>votes := votes (choices st ! i) + 1\<rparr>]\<rparr>)"
proof (cases r)
  case GET_index
  then show ?thesis by (simp add: IndexView_def)
next
  case (GET_detail pk)
  then show ?thesis by (simp add: DetailView_def split: sum.splits)
next
  case (GET_results pk)
  then show ?thesis by (simp add: ResultsView_def split: sum.splits)
next
  case (POST_vote question_id POST)
  from vote_store[OF assms, where to_key = to_key and POST = POST and question_id = question_id]
  show ?thesis
  proof
    assume "fst (vote to_key st POST question_id) = st"
    then show ?thesis using POST_vote by simp
  next
    assume "\<exists>i. i < length (choices st)
              \<and> fst (vote to_key st POST question_id) =
                  st\<lparr>choices := (choices st)[i := (choices st ! i)\<lparr>votes := votes (choices st ! i) + 1\<rparr>]\<rparr>"
    then obtain i where "i < length (choices st)"
      and "fst (vote to_key st POST question_id) =
                  st\<lparr>choices := (choices st)[i := (choices st ! i)\<lparr>votes := votes (choices st ! i) + 1\<rparr>]\<rparr>"
      by (elim exE conjE)
    then show ?thesis using POST_vote by (intro disjI2 exI[of _ question_id] exI[of _ POST] exI[of _ i]) simp
  qed
qed

lemma same_rows_refl: "list_all2 same_rows_more_votes cs cs"
  by (simp add: list_all2_refl same_rows_more_votes_def)

lemma same_rows_update:
  assumes "i < length cs"
  shows "list_all2 same_rows_more_votes cs (cs[i := (cs ! i)\<lparr>votes := votes (cs ! i) + 1\<rparr>])"
  using assms by (simp add: list_all2_conv_all_nth nth_list_update same_rows_more_votes_def)

lemma same_rows_trans:
  "list_all2 same_rows_more_votes xs ys \<Longrightarrow> list_all2 same_rows_more_votes ys zs
     \<Longrightarrow> list_all2 same_rows_more_votes xs zs"
proof -
  assume a: "list_all2 same_rows_more_votes xs ys" and b: "list_all2 same_rows_more_votes ys zs"
  have "\<And>x y z. same_rows_more_votes x y \<Longrightarrow> same_rows_more_votes y z \<Longrightarrow> same_rows_more_votes x z"
    by (auto simp: same_rows_more_votes_def)
  then show ?thesis using a b by (rule list_all2_trans)
qed

lemma same_rows_keys:
  "list_all2 same_rows_more_votes xs ys \<Longrightarrow> map c_id ys = map c_id xs"
  by (induction rule: list_all2_induct) (auto simp: same_rows_more_votes_def)

lemma dispatch_step:
  assumes "distinct (map c_id (choices st))"
  shows "questions (fst (dispatch to_key st now r)) = questions st
       \<and> list_all2 same_rows_more_votes (choices st) (choices (fst (dispatch to_key st now r)))"
  using dispatch_outcomes[OF assms, where to_key = to_key and now = now and r = r]
  by (auto simp: same_rows_refl same_rows_update)

lemma run_invariant:
  "distinct (map c_id (choices st)) \<Longrightarrow>
     questions (run to_key st rs) = questions st
     \<and> list_all2 same_rows_more_votes (choices st) (choices (run to_key st rs))"
proof (induction rs arbitrary: st)
  case Nil
  then show ?case by (simp add: same_rows_refl)
next
  case (Cons a rs)
  obtain now r where a: "a = (now, r)" by (cases a)
  let ?st = "fst (dispatch to_key st now r)"
  have step: "questions ?st = questions st"
    "list_all2 same_rows_more_votes (choices st) (choices ?st)"
    using dispatch_step[OF Cons.prems, where to_key = to_key and now = now and r = r] by simp_all
  have "map c_id (choices ?st) = map c_id (choices st)" using step(2) by (rule same_rows_keys)
  then have "distinct (map c_id (choices ?st))" using Cons.prems by simp
  from Cons.IH[OF this] step a show ?case by (auto intro: same_rows_trans)
qed

lemma same_rows_nonneg:
  "list_all2 same_rows_more_votes xs ys \<Longrightarrow> list_all (\<lambda>c. 0 \<le> votes c) xs
     \<Longrightarrow> list_all (\<lambda>c. 0 \<le> votes c) ys"
  by (induction rule: list_all2_induct) (auto simp: same_rows_more_votes_def)

section \<open>The example stores, evaluated\<close>

lemma six_questions_listing:
  "IndexView_get_queryset six_questions (7 * one_day) = map past_question [5, 4, 3, 2]"
  by (simp add: IndexView_get_queryset_def six_questions_def past_question_def sure_def
      order_by_pub_date_desc_def filter_pub_date_lte_def choice_set_def one_day_def)

lemma six_questions_contract:
  "listing_contract six_questions (7 * one_day) = map past_question [5, 4, 3, 2, 1]"
  by (simp add: listing_contract_def six_questions_def past_question_def sure_def
      order_by_pub_date_desc_def filter_pub_date_lte_def choice_set_def one_day_def)

lemma six_questions_with_choices:
  "filter (\<lambda>q. pub_date q \<le> 7 * one_day \<and> choice_set six_questions q \<noteq> []) (questions six_questions)
     = map past_question [1, 2, 3, 4, 5]"
  by (simp add: six_questions_def past_question_def sure_def choice_set_def one_day_def)

lemma past_question_6_no_choice: "choice_set six_questions (past_question 6) = []"
  by (simp add: six_questions_def past_question_def sure_def choice_set_def)

lemma example_store_keys:
  "distinct (map q_id (questions example_store))" "distinct (map c_id (choices example_store))"
  by (simp_all add: example_store_def)

lemma example_store_questions: "questions example_store = [past_q, future_q]"
  by (simp add: example_store_def past_q_def future_q_def)

lemma example_resolve:
  "get_object_or_404 (questions example_store) 1 = Inr past_q"
  "get_object_or_404 (questions example_store) 2 = Inr future_q"
  by (simp_all add: example_store_questions get_object_or_404_def filter_q_pk_def past_q_def future_q_def)

lemma py_int_examples:
  "py_int ''2'' = Some 2" "py_int ''3'' = Some 3" "py_int ''77'' = Some 77"
  "py_int ''abc'' = None" "py_int [] = None"
  by (simp_all add: py_int_def strip_def blank_def digit_value_def)

lemma example_run:
  "map votes (choices (run py_int example_store example_requests)) = [0, 4, 1]"
  by (simp add: example_requests_def example_store_def IndexView_def DetailView_def
      ResultsView_def vote_def get_object_def get_object_or_404_def filter_q_pk_def
      filter_c_pk_def choice_set_def save_def filter_pub_date_lte_def py_int_examples
      DetailView_get_queryset_def ResultsView_get_queryset_def handle_exn_def one_day_def)

section \<open>The claims\<close>

subsection \<open>Question listing\<close>

text \<open>
  C1, as stated, fails. The claim reads the listing as the five most recently published
  questions among those that have a choice. In the store of six questions all six are
  published on day 7 and exactly five have a choice, so the contract lists all five; the
  view lists four, because the newest question, which has no choice, takes one of the five
  places before the questions without choices are dropped.
\<close>

theorem IndexView_listing_counterexample:
  "length (IndexView_get_queryset six_questions (7 * one_day)) = 4
   \<and> length (listing_contract six_questions (7 * one_day)) = 5
   \<and> past_question 1 \<in> set (listing_contract six_questions (7 * one_day))
   \<and> past_question 1 \<notin> set (IndexView_get_queryset six_questions (7 * one_day))
   \<and> IndexView_get_queryset six_questions (7 * one_day)
       \<noteq> listing_contract six_questions (7 * one_day)"
  by (simp add: six_questions_listing six_questions_contract past_question_def)

text \<open>
  C1, amended. The listing returns, of the five most recently published questions whose
  publication timestamp is at most the current time (all of them when fewer than five are
  published), exactly those that have at least one choice, in descending order of
  publication timestamp. Every question it returns is a published row of the table with a
  choice; every question without choices is excluded; the store is left as it was.
\<close>

theorem IndexView_listing:
  "(\<exists>xs. five_most_recently_published st now xs
         \<and> IndexView_get_queryset st now = filter (\<lambda>q. choice_set st q \<noteq> []) xs)
   \<and> sorted_wrt (\<lambda>a b. pub_date b \<le> pub_date a) (IndexView_get_queryset st now)
   \<and> (\<forall>q \<in> set (IndexView_get_queryset st now).
         q \<in> set (questions st) \<and> pub_date q \<le> now \<and> choice_set st q \<noteq> [])
   \<and> (\<forall>q. choice_set st q = [] \<longrightarrow> q \<notin> set (IndexView_get_queryset st now))
   \<and> fst (IndexView st now) = st
   \<and> snd (IndexView st now) =
       HttpResponse ''polls/index.html'' (Latest_question_list (IndexView_get_queryset st now))"
proof (intro conjI)
  show "\<exists>xs. five_most_recently_published st now xs
         \<and> IndexView_get_queryset st now = filter (\<lambda>q. choice_set st q \<noteq> []) xs"
    using latest_five[of st now] IndexView_get_queryset_eq[of st now] by blast
  show "sorted_wrt (\<lambda>a b. pub_date b \<le> pub_date a) (IndexView_get_queryset st now)"
    by (rule IndexView_get_queryset_sorted)
  show "\<forall>q \<in> set (IndexView_get_queryset st now).
         q \<in> set (questions st) \<and> pub_date q \<le> now \<and> choice_set st q \<noteq> []"
    using IndexView_get_queryset_members by blast
  show "\<forall>q. choice_set st q = [] \<longrightarrow> q \<notin> set (IndexView_get_queryset st now)"
    using IndexView_get_queryset_members by blast
  show "fst (IndexView st now) = st" by (simp add: IndexView_def)
  show "snd (IndexView st now) =
       HttpResponse ''polls/index.html'' (Latest_question_list (IndexView_get_queryset st now))"
    by (simp add: IndexView_def)
qed

theorem IndexView_listing_witness:
  "choice_set six_questions (past_question 6) = []
   \<and> past_question 6 \<notin> set (IndexView_get_queryset six_questions (7 * one_day))
   \<and> IndexView_get_queryset six_questions (7 * one_day) = map past_question [5, 4, 3, 2]
   \<and> fst (IndexView six_questions (7 * one_day)) = six_questions"
  using IndexView_listing[of six_questions "7 * one_day"] past_question_6_no_choice
    six_questions_listing
  by blast

subsection \<open>Detail and results lookup\<close>

text \<open>
  C2. For every question identifier and current time, the detail lookup and the results
  lookup return a question only if it is a row with that identifier whose publication
  timestamp is at most the current time (and, identifiers being unique, they do return it
  then); when every row with the identifier is unpublished, or there is none, the response
  is "not found". The response is the same as on the store from which the unpublished
  questions have been removed, so a caller cannot tell an unpublished question from one
  that does not exist.
\<close>

theorem detail_results_lookup:
  "(\<forall>st' t q m. DetailView st now pk = (st', HttpResponse t (Question_context q m))
                 \<or> ResultsView st now pk = (st', HttpResponse t (Question_context q m))
        \<longrightarrow> q \<in> set (questions st) \<and> q_id q = pk \<and> pub_date q \<le> now)
   \<and> ((\<forall>q \<in> set (questions st). q_id q = pk \<longrightarrow> now < pub_date q)
        \<longrightarrow> DetailView st now pk = (st, HttpResponseNotFound)
            \<and> ResultsView st now pk = (st, HttpResponseNotFound))
   \<and> (\<forall>q. distinct (map q_id (questions st)) \<and> q \<in> set (questions st) \<and> q_id q = pk
            \<and> pub_date q \<le> now
        \<longrightarrow> DetailView st now pk = (st, HttpResponse ''polls/detail.html'' (Question_context q None))
            \<and> ResultsView st now pk = (st, HttpResponse ''polls/results.html'' (Question_context q None)))
   \<and> snd (DetailView st now pk) = snd (DetailView (published_only st now) now pk)
   \<and> snd (ResultsView st now pk) = snd (ResultsView (published_only st now) now pk)"
proof (intro conjI allI impI)
  fix st' t q m
  assume "DetailView st now pk = (st', HttpResponse t (Question_context q m))
          \<or> ResultsView st now pk = (st', HttpResponse t (Question_context q m))"
  then have r: "q \<in> set (questions st) \<and> q_id q = pk \<and> pub_date q \<le> now"
    using DetailView_found ResultsView_found by blast
  from r show "q \<in> set (questions st)" by simp
  from r show "q_id q = pk" by simp
  from r show "pub_date q \<le> now" by simp
next
  assume a: "\<forall>q \<in> set (questions st). q_id q = pk \<longrightarrow> now < pub_date q"
  show "DetailView st now pk = (st, HttpResponseNotFound)"
    using lookup_404[OF a] by (simp add: DetailView_def DetailView_get_queryset_def handle_exn_def)
  show "ResultsView st now pk = (st, HttpResponseNotFound)"
    using lookup_404[OF a] by (simp add: ResultsView_def ResultsView_get_queryset_def handle_exn_def)
next
  fix q
  assume a: "distinct (map q_id (questions st)) \<and> q \<in> set (questions st) \<and> q_id q = pk
            \<and> pub_date q \<le> now"
  then have "get_object (filter_pub_date_lte now (questions st)) pk = Inr q"
    using lookup_published[of st q now] by auto
  then show "DetailView st now pk = (st, HttpResponse ''polls/detail.html'' (Question_context q None))"
    and "ResultsView st now pk = (st, HttpResponse ''polls/results.html'' (Question_context q None))"
    by (simp_all add: DetailView_def DetailView_get_queryset_def ResultsView_def
        ResultsView_get_queryset_def)
next
  show "snd (DetailView st now pk) = snd (DetailView (published_only st now) now pk)"
    by (simp add: DetailView_def DetailView_get_queryset_def published_only_def
        filter_pub_date_lte_idem split: sum.splits)
  show "snd (ResultsView st now pk) = snd (ResultsView (published_only st now) now pk)"
    by (simp add: ResultsView_def ResultsView_get_queryset_def published_only_def
        filter_pub_date_lte_idem split: sum.splits)
qed

theorem detail_results_lookup_witness:
  "DetailView example_store (10 * one_day) 2 = (example_store, HttpResponseNotFound)
   \<and> ResultsView example_store (10 * one_day) 2 = (example_store, HttpResponseNotFound)
   \<and> DetailView example_store (10 * one_day) 99 = (example_store, HttpResponseNotFound)
   \<and> DetailView example_store (10 * one_day) 1 =
       (example_store, HttpResponse ''polls/detail.html'' (Question_context past_q None))
   \<and> ResultsView example_store (10 * one_day) 1 =
       (example_store, HttpResponse ''polls/results.html'' (Question_context past_q None))"
proof -
  have a: "\<forall>q \<in> set (questions example_store). q_id q = 2 \<longrightarrow> 10 * one_day < pub_date q"
    by (simp add: example_store_questions past_q_def future_q_def one_day_def)
  have b: "\<forall>q \<in> set (questions example_store). q_id q = 99 \<longrightarrow> 10 * one_day < pub_date q"
    by (simp add: example_store_questions past_q_def future_q_def one_day_def)
  have c: "distinct (map q_id (questions example_store)) \<and> past_q \<in> set (questions example_store)
            \<and> q_id past_q = 1 \<and> pub_date past_q \<le> 10 * one_day"
    by (simp add: example_store_questions past_q_def future_q_def one_day_def)
  show ?thesis
    using detail_results_lookup[of example_store "10 * one_day" 2]
      detail_results_lookup[of example_store "10 * one_day" 99]
      detail_results_lookup[of example_store "10 * one_day" 1] a b c
    by blast
qed

subsection \<open>Vote casting\<close>

text \<open>
  C3. The claim: for every vote submission whose choice identifier is missing or matches
  no choice of the resolved question, no counter changes and the response is the detail
  page with the error message, not a server error. The view does so when the field is
  missing and when its text is a key that no choice of the question has. It does not when
  the text is no key at all: the coercion raises \<^verbatim>\<open>ValueError\<close>, which the \<^verbatim>\<open>except\<close>
  clause does not name, and the request ends in a server error. On the published question
  1 of the example store, the submitted text \<^verbatim>\<open>abc\<close> is answered with status 500 and the
  store unchanged, while the text \<^verbatim>\<open>77\<close>, a key of no choice, is answered with the error
  page.
\<close>

theorem vote_text_not_a_key:
  "py_int ''abc'' = None
   \<and> vote py_int example_store [''choice'' \<mapsto> ''abc''] 1 =
       (example_store, HttpResponseServerError ValueError)
   \<and> status_code (snd (vote py_int example_store [''choice'' \<mapsto> ''abc''] 1)) = 500
   \<and> vote py_int example_store [''choice'' \<mapsto> ''77''] 1 =
       (example_store, HttpResponse ''polls/detail.html'' (Question_context past_q (Some error_message)))"
proof -
  have a: "[''choice'' \<mapsto> ''abc''] ''choice'' = Some ''abc''" by simp
  have "vote py_int example_store [''choice'' \<mapsto> ''abc''] 1 =
       (example_store, HttpResponseServerError ValueError)"
    using example_resolve(1) a py_int_examples(4) by (rule vote_not_a_key)
  moreover have "[''choice'' \<mapsto> ''77''] ''choice'' = None
         \<or> (\<exists>raw pk. [''choice'' \<mapsto> ''77''] ''choice'' = Some raw \<and> py_int raw = Some pk
               \<and> pk \<notin> set (map c_id (choice_set example_store past_q)))"
    by (simp add: py_int_examples example_store_def choice_set_def past_q_def)
  with example_resolve(1)
  have "vote py_int example_store [''choice'' \<mapsto> ''77''] 1 =
       (example_store, HttpResponse ''polls/detail.html'' (Question_context past_q (Some error_message)))"
    by (rule vote_not_selected)
  ultimately show ?thesis by (simp add: py_int_examples)
qed

text \<open>
  C4. For every vote submission whose \<^verbatim>\<open>choice\<close> field is the identifier of a choice that
  belongs to the target question (identifiers being unique in both tables), the store after
  the vote differs from the store before in exactly that row of the choice table, whose
  vote counter is larger by exactly 1; every other choice and every question is unchanged;
  the response is a redirect to the results entry point of that question.
\<close>

theorem vote_with_valid_choice:
  assumes "distinct (map q_id (questions st))" "distinct (map c_id (choices st))"
    and "p \<in> set (questions st)"
    and "i < length (choices st)" "c_question (choices st ! i) = q_id p"
    and "POST ''choice'' = Some raw" "to_key raw = Some (c_id (choices st ! i))"
  shows "vote to_key st POST (q_id p) =
           (st\<lparr>choices := (choices st)[i := (choices st ! i)\<lparr>votes := votes (choices st ! i) + 1\<rparr>]\<rparr>,
            HttpResponseRedirect ''polls:results'' [q_id p])
       \<and> questions (fst (vote to_key st POST (q_id p))) = questions st
       \<and> length (choices (fst (vote to_key st POST (q_id p)))) = length (choices st)
       \<and> votes (choices (fst (vote to_key st POST (q_id p))) ! i) = votes (choices st ! i) + 1
       \<and> (\<forall>j < length (choices st). j \<noteq> i \<longrightarrow>
             choices (fst (vote to_key st POST (q_id p))) ! j = choices st ! j)"
proof -
  have "get_object_or_404 (questions st) (q_id p) = Inr p"
    using assms(1,3) by (rule get_object_or_404_unique)
  from this assms(2,4,5,6,7) have "vote to_key st POST (q_id p) =
           (st\<lparr>choices := (choices st)[i := (choices st ! i)\<lparr>votes := votes (choices st ! i) + 1\<rparr>]\<rparr>,
            HttpResponseRedirect ''polls:results'' [q_id p])"
    by (rule vote_selected)
  with assms(4) show ?thesis by simp
qed

theorem vote_with_valid_choice_witness:
  "vote py_int example_store [''choice'' \<mapsto> ''2''] 1 =
     (example_store\<lparr>choices :=
        [\<lparr>c_id = 1, c_question = 1, choice_text = ''Sure.'', votes = 0\<rparr>,
         \<lparr>c_id = 2, c_question = 1, choice_text = ''No.'', votes = 4\<rparr>,
         \<lparr>c_id = 3, c_question = 2, choice_text = ''Sure.'', votes = 0\<rparr>]\<rparr>,
      HttpResponseRedirect ''polls:results'' [1])"
proof -
  have p: "past_q \<in> set (questions example_store)" by (simp add: example_store_questions)
  have i: "(1::nat) < length (choices example_store)" by (simp add: example_store_def)
  have q: "c_question (choices example_store ! 1) = q_id past_q"
    by (simp add: example_store_def past_q_def)
  have c: "[''choice'' \<mapsto> ''2''] ''choice'' = Some ''2''" by simp
  have k: "py_int ''2'' = Some (c_id (choices example_store ! 1))"
    by (simp add: py_int_examples example_store_def)
  show ?thesis
    using vote_with_valid_choice
            [where POST = "[''choice'' \<mapsto> ''2'']" and to_key = py_int,
             OF example_store_keys p i q c k]
    by (simp add: example_store_def past_q_def)
qed

text \<open>
  C5. The vote resolves the question by identifier alone: the response is "not found"
  exactly when no row of the question table has the identifier. The view takes no current
  time; a question whose publication timestamp is after the current time, for which the
  detail lookup answers "not found", still accepts a vote.
\<close>

theorem vote_resolves_without_publication_check:
  "(snd (vote to_key st POST question_id) = HttpResponseNotFound
      \<longleftrightarrow> question_id \<notin> set (map q_id (questions st)))
   \<and> (\<forall>p i now raw.
         distinct (map q_id (questions st)) \<and> distinct (map c_id (choices st))
         \<and> p \<in> set (questions st) \<and> q_id p = question_id \<and> now < pub_date p
         \<and> i < length (choices st) \<and> c_question (choices st ! i) = q_id p
         \<and> POST ''choice'' = Some raw \<and> to_key raw = Some (c_id (choices st ! i))
       \<longrightarrow> DetailView st now question_id = (st, HttpResponseNotFound)
           \<and> vote to_key st POST question_id =
               (st\<lparr>choices := (choices st)[i := (choices st ! i)\<lparr>votes := votes (choices st ! i) + 1\<rparr>]\<rparr>,
                HttpResponseRedirect ''polls:results'' [question_id]))"
proof (intro conjI allI impI)
  show "snd (vote to_key st POST question_id) = HttpResponseNotFound
      \<longleftrightarrow> question_id \<notin> set (map q_id (questions st))"
    by (rule vote_not_found_iff)
next
  fix p i now raw
  assume a: "distinct (map q_id (questions st)) \<and> distinct (map c_id (choices st))
         \<and> p \<in> set (questions st) \<and> q_id p = question_id \<and> now < pub_date p
         \<and> i < length (choices st) \<and> c_question (choices st ! i) = q_id p
         \<and> POST ''choice'' = Some raw \<and> to_key raw = Some (c_id (choices st ! i))"
  then have d: "distinct (map q_id (questions st))" and p: "p \<in> set (questions st)"
    and k: "q_id p = question_id" and f: "now < pub_date p"
    and dc: "distinct (map c_id (choices st))" and i: "i < length (choices st)"
    and cq: "c_question (choices st ! i) = q_id p"
    and post: "POST ''choice'' = Some raw" and key: "to_key raw = Some (c_id (choices st ! i))"
    by simp_all
  have r: "get_object_or_404 (questions st) question_id = Inr p"
    using get_object_or_404_unique[OF d p] k by simp
  have "\<forall>q \<in> set (questions st). q_id q = question_id \<longrightarrow> now < pub_date q"
  proof (intro ballI impI)
    fix q assume q: "q \<in> set (questions st)" "q_id q = question_id"
    have "q = p" using d p q k by (metis distinct_map inj_onD)
    with f show "now < pub_date q" by simp
  qed
  then have "get_object (filter_pub_date_lte now (questions st)) question_id = Inl Http404"
    by (rule lookup_404)
  then show "DetailView st now question_id = (st, HttpResponseNotFound)"
    by (simp add: DetailView_def DetailView_get_queryset_def handle_exn_def)
  from r dc i cq post key have "vote to_key st POST question_id =
           (st\<lparr>choices := (choices st)[i := (choices st ! i)\<lparr>votes := votes (choices st ! i) + 1\<rparr>]\<rparr>,
            HttpResponseRedirect ''polls:results'' [q_id p])"
    by (rule vote_selected)
  with k show "vote to_key st POST question_id =
               (st\<lparr>choices := (choices st)[i := (choices st ! i)\<lparr>votes := votes (choices st ! i) + 1\<rparr>]\<rparr>,
                HttpResponseRedirect ''polls:results'' [question_id])"
    by simp
qed

theorem vote_resolves_without_publication_check_witness:
  "snd (vote py_int example_store [''choice'' \<mapsto> ''3''] 99) = HttpResponseNotFound
   \<and> DetailView example_store (10 * one_day) 2 = (example_store, HttpResponseNotFound)
   \<and> vote py_int example_store [''choice'' \<mapsto> ''3''] 2 =
       (example_store\<lparr>choices :=
          [\<lparr>c_id = 1, c_question = 1, choice_text = ''Sure.'', votes = 0\<rparr>,
           \<lparr>c_id = 2, c_question = 1, choice_text = ''No.'', votes = 3\<rparr>,
           \<lparr>c_id = 3, c_question = 2, choice_text = ''Sure.'', votes = 1\<rparr>]\<rparr>,
        HttpResponseRedirect ''polls:results'' [2])"
proof -
  have a: "(99::int) \<notin> set (map q_id (questions example_store))"
    by (simp add: example_store_def)
  have b: "distinct (map q_id (questions example_store)) \<and> distinct (map c_id (choices example_store))
         \<and> future_q \<in> set (questions example_store) \<and> q_id future_q = 2
         \<and> 10 * one_day < pub_date future_q
         \<and> (2::nat) < length (choices example_store)
         \<and> c_question (choices example_store ! 2) = q_id future_q
         \<and> [''choice'' \<mapsto> ''3''] ''choice'' = Some ''3''
         \<and> py_int ''3'' = Some (c_id (choices example_store ! 2))"
    by (simp add: example_store_def future_q_def one_day_def py_int_examples)
  have c: "(choices example_store)[2 := (choices example_store ! 2)\<lparr>votes := votes (choices example_store ! 2) + 1\<rparr>]
          = [\<lparr>c_id = 1, c_question = 1, choice_text = ''Sure.'', votes = 0\<rparr>,
           \<lparr>c_id = 2, c_question = 1, choice_text = ''No.'', votes = 3\<rparr>,
           \<lparr>c_id = 3, c_question = 2, choice_text = ''Sure.'', votes = 1\<rparr>]"
    by (simp add: example_store_def)
  have "snd (vote py_int example_store [''choice'' \<mapsto> ''3''] 99) = HttpResponseNotFound"
    using vote_resolves_without_publication_check
            [where st = example_store and POST = "[''choice'' \<mapsto> ''3'']" and question_id = 99
               and to_key = py_int] a
    by blast
  moreover have "DetailView example_store (10 * one_day) 2 = (example_store, HttpResponseNotFound)
    \<and> vote py_int example_store [''choice'' \<mapsto> ''3''] 2 =
       (example_store\<lparr>choices := (choices example_store)[2 := (choices example_store ! 2)\<lparr>votes := votes (choices example_store ! 2) + 1\<rparr>]\<rparr>,
        HttpResponseRedirect ''polls:results'' [2])"
    using vote_resolves_without_publication_check
            [where st = example_store and POST = "[''choice'' \<mapsto> ''3'']" and question_id = 2
               and to_key = py_int] b
    by blast
  ultimately show ?thesis unfolding c by simp
qed

subsection \<open>Published recently\<close>

text \<open>
  C6. For every question and every current time, "published recently" holds exactly when
  the publication timestamp lies within the last 24 hours and not in the future: it is
  false for a timestamp after now, false for a timestamp more than 24 hours before now,
  and true for a timestamp within the past 24 hours.
\<close>

theorem was_published_recently_window:
  "(was_published_recently q now \<longleftrightarrow> now - one_day \<le> pub_date q \<and> pub_date q \<le> now)
   \<and> (now < pub_date q \<longrightarrow> \<not> was_published_recently q now)
   \<and> (pub_date q < now - one_day \<longrightarrow> \<not> was_published_recently q now)
   \<and> (now - one_day \<le> pub_date q \<and> pub_date q \<le> now \<longrightarrow> was_published_recently q now)"
  by (auto simp: was_published_recently_def)

text \<open>
  The three cases of \<^verbatim>\<open>QuestionMethodTest\<close>: thirty days ahead, thirty days back, one hour
  back.
\<close>

theorem was_published_recently_window_witness:
  "\<not> was_published_recently \<lparr>q_id = 1, question_text = ''Future'', pub_date = 1000 + 30 * one_day\<rparr> 1000
   \<and> \<not> was_published_recently \<lparr>q_id = 2, question_text = ''Old'', pub_date = 1000 - 30 * one_day\<rparr> 1000
   \<and> was_published_recently \<lparr>q_id = 3, question_text = ''Recent'', pub_date = 1000 - one_hour\<rparr> 1000"
  using was_published_recently_window
          [of "\<lparr>q_id = 1, question_text = ''Future'', pub_date = 1000 + 30 * one_day\<rparr>" 1000]
        was_published_recently_window
          [of "\<lparr>q_id = 2, question_text = ''Old'', pub_date = 1000 - 30 * one_day\<rparr>" 1000]
        was_published_recently_window
          [of "\<lparr>q_id = 3, question_text = ''Recent'', pub_date = 1000 - one_hour\<rparr>" 1000]
  by (simp add: one_day_def one_hour_def)

subsection \<open>Vote counters\<close>

text \<open>
  C7. Choice identifiers being unique: a single request of the workflow (listing, detail,
  results, vote) either leaves the store as it was or is a vote that adds exactly 1 to the
  counter of one row of the choice table; after any sequence of requests the question table
  is unchanged, the choice table has the same rows in the same places, none with fewer
  votes than before, and counters that were all non-negative still are. A choice is created
  with counter 0.
\<close>

theorem vote_counter_monotone:
  assumes "distinct (map c_id (choices st))"
  shows "(fst (dispatch to_key st now r) = st
          \<or> (\<exists>question_id POST i. r = POST_vote question_id POST \<and> i < length (choices st)
               \<and> fst (dispatch to_key st now r) =
                   st\<lparr>choices := (choices st)[i := (choices st ! i)\<lparr>votes := votes (choices st ! i) + 1\<rparr>]\<rparr>))
       \<and> questions (run to_key st rs) = questions st
       \<and> list_all2 same_rows_more_votes (choices st) (choices (run to_key st rs))
       \<and> (list_all (\<lambda>c. 0 \<le> votes c) (choices st)
            \<longrightarrow> list_all (\<lambda>c. 0 \<le> votes c) (choices (run to_key st rs)))
       \<and> votes (snd (choice_set_create st q text)) = 0"
proof (intro conjI impI)
  show "fst (dispatch to_key st now r) = st
          \<or> (\<exists>question_id POST i. r = POST_vote question_id POST \<and> i < length (choices st)
               \<and> fst (dispatch to_key st now r) =
                   st\<lparr>choices := (choices st)[i := (choices st ! i)\<lparr>votes := votes (choices st ! i) + 1\<rparr>]\<rparr>)"
    using assms by (rule dispatch_outcomes)
  show "questions (run to_key st rs) = questions st" using run_invariant[OF assms] by simp
  show m: "list_all2 same_rows_more_votes (choices st) (choices (run to_key st rs))"
    using run_invariant[OF assms] by simp
  show "list_all (\<lambda>c. 0 \<le> votes c) (choices (run to_key st rs))"
    if "list_all (\<lambda>c. 0 \<le> votes c) (choices st)"
    using m that by (rule same_rows_nonneg)
  show "votes (snd (choice_set_create st q text)) = 0"
    by (simp add: choice_set_create_def Let_def)
qed

theorem vote_counter_monotone_witness:
  "distinct (map c_id (choices example_store))
   \<and> map votes (choices example_store) = [0, 3, 0]
   \<and> map votes (choices (run py_int example_store example_requests)) = [0, 4, 1]
   \<and> list_all2 same_rows_more_votes (choices example_store)
        (choices (run py_int example_store example_requests))
   \<and> list_all (\<lambda>c. 0 \<le> votes c) (choices (run py_int example_store example_requests))"
proof -
  have n: "list_all (\<lambda>c. 0 \<le> votes c) (choices example_store)"
    by (simp add: example_store_def)
  have v: "map votes (choices example_store) = [0, 3, 0]" by (simp add: example_store_def)
  show ?thesis
    using vote_counter_monotone
            [OF example_store_keys(2), where rs = example_requests and to_key = py_int]
      example_store_keys(2) n v example_run
    by blast
qed

subsection \<open>What the vote entry point shows\<close>




subsection \<open>The limit comes before the filter\<close>

text \<open>
  C10. The listing is always an order-preserving subsequence of the five most recently
  published questions, so it has at most five entries; and there is a store in which it has
  fewer than five entries although at least five published questions with choices exist,
  because the limit of five is applied before the questions without choices are dropped.
\<close>

theorem listing_limit_before_filter:
  "(\<exists>xs. five_most_recently_published st now xs \<and> subseq (IndexView_get_queryset st now) xs)
   \<and> length (IndexView_get_queryset st now) \<le> 5
   \<and> (\<exists>st' now'. length (IndexView_get_queryset st' now') < 5
         \<and> 5 \<le> length (filter (\<lambda>q. pub_date q \<le> now' \<and> choice_set st' q \<noteq> []) (questions st')))"
proof (intro conjI)
  have "subseq (IndexView_get_queryset st now)
          (take 5 (order_by_pub_date_desc (filter_pub_date_lte now (questions st))))"
    unfolding IndexView_get_queryset_eq by (rule subseq_filter_left)
  with latest_five[of st now]
  show "\<exists>xs. five_most_recently_published st now xs \<and> subseq (IndexView_get_queryset st now) xs"
    by blast
  show "length (IndexView_get_queryset st now) \<le> 5" by (rule IndexView_get_queryset_length)
  have "length (IndexView_get_queryset six_questions (7 * one_day)) < 5"
    by (simp add: six_questions_listing)
  moreover have "5 \<le> length (filter (\<lambda>q. pub_date q \<le> 7 * one_day \<and> choice_set six_questions q \<noteq> [])
                    (questions six_questions))"
    by (simp add: six_questions_with_choices)
  ultimately show "\<exists>st' now'. length (IndexView_get_queryset st' now') < 5
         \<and> 5 \<le> length (filter (\<lambda>q. pub_date q \<le> now' \<and> choice_set st' q \<noteq> []) (questions st'))"
    by blast
qed

theorem listing_limit_before_filter_witness:
  "length (IndexView_get_queryset six_questions (7 * one_day)) \<le> 5
   \<and> length (IndexView_get_queryset six_questions (7 * one_day)) = 4
   \<and> length (filter (\<lambda>q. pub_date q \<le> 7 * one_day \<and> choice_set six_questions q \<noteq> [])
               (questions six_questions)) = 5"
  using listing_limit_before_filter[of six_questions "7 * one_day"]
  by (simp add: six_questions_listing six_questions_with_choices)

end
